theory Spec2Isabelle
  imports Main "HOL-Library.Sublist"
begin

section \<open>The Poetry-to-UV migration script (migrate_to_uv.py)\<close>

text \<open>
  The script is a linear sequence of existence tests, file copies, deletions and
  shell commands, with console output. The embedding keeps all four:
  \<^item> the working directory is a map from paths to nodes (a regular file with its
    content, or a directory);
  \<^item> every \<open>print\<close> of the source is a message tag appended to the console;
  \<^item> every mutation the script itself performs (\<open>shutil.copy2\<close>, \<open>Path.unlink\<close>,
    \<open>shutil.rmtree\<close>) is appended to a trace, together with the filesystem it was
    applied to;
  \<^item> an external command is what \<open>subprocess.run\<close> does with it: it returns an exit
    status or raises (an interrupt is modelled where the script waits, at a command).
    The script inspects nothing else of a command, so the commands' own effects on the
    working directory are outside the model.
  Exceptions and \<open>sys.exit\<close> are values; the state reached so far is returned with
  them, since nothing is rolled back.
\<close>

subsection \<open>Filesystem\<close>

type_synonym path = string

datatype node = File string | Dir

type_synonym fs = "path \<Rightarrow> node option"

datatype exc = KeyboardInterrupt | IsADirectoryError | FileNotFoundError | SameFileError | OSError

datatype fileop = Copy path path | Unlink path | Rmtree path

text \<open>One constructor for each \<open>print\<close> statement (or block of them) of the source.\<close>

datatype msg =
    CommandFailed string
  | Banner
  | CheckingPrerequisites
  | NoPyprojectFound
  | UVNotFound
  | UVFound
  | PoetryFound
  | PoetryNotFound
  | UVAlreadyExists
  | CreatingBackups
  | BackedUp path path
  | BackupsCreated
  | SettingUpUV
  | CopiedUVConfig
  | UVConfigNotFound
  | InstallingDependencies
  | InstallFailed
  | DependenciesInstalled
  | SettingUpPreCommit
  | PreCommitFailed
  | PreCommitInstalled
  | Verifying
  | PythonNotWorking
  | PythonVersion
  | ImportFailed
  | ImportOK
  | PytestNotAvailable
  | PytestVersion
  | InstallationVerified
  | MayHaveIssues
  | CleaningUp
  | RemovedDirectory path
  | RemovedFile path
  | KeepingBackups
  | NextSteps
  | MigrationCancelled
  | MigrationFailed

record state =
  files :: fs
  out :: "msg list"
  ops :: "(fs \<times> fileop) list"

definition init :: "fs \<Rightarrow> state" where
  "init f = \<lparr>files = f, out = [], ops = []\<rparr>"

definition say :: "msg \<Rightarrow> state \<Rightarrow> state" where
  "say m s = s\<lparr>out := out s @ [m]\<rparr>"

definition path_exists :: "fs \<Rightarrow> path \<Rightarrow> bool" where
  "path_exists f p = (f p \<noteq> None)"

definition is_dir :: "fs \<Rightarrow> path \<Rightarrow> bool" where
  "is_dir f p = (f p = Some Dir)"

text \<open>
  \<open>shutil.copy2(src, dst)\<close>: a destination that is a directory receives the file
  under the source's base name (every source the script passes is a bare file name);
  \<open>copy_target\<close> is the path that is written. Opening a directory for reading or
  writing raises; the content is copied over whatever the target held.
\<close>

definition copy_target :: "fs \<Rightarrow> path \<Rightarrow> path \<Rightarrow> path" where
  "copy_target f src dst = (if is_dir f dst then dst @ ''/'' @ src else dst)"

definition copy2 :: "path \<Rightarrow> path \<Rightarrow> state \<Rightarrow> (exc + unit) \<times> state" where
  "copy2 src dst s =
     (let tgt = copy_target (files s) src dst in
      case files s src of
        None \<Rightarrow> (Inl FileNotFoundError, s)
      | Some Dir \<Rightarrow> (Inl IsADirectoryError, s)
      | Some (File c) \<Rightarrow>
          if tgt = src then (Inl SameFileError, s)
          else if is_dir (files s) tgt then (Inl IsADirectoryError, s)
          else (Inr (), s\<lparr>files := (files s)(tgt \<mapsto> File c),
                           ops := ops s @ [(files s, Copy src tgt)]\<rparr>))"

definition unlink :: "path \<Rightarrow> state \<Rightarrow> state" where
  "unlink p s = s\<lparr>files := (files s)(p := None), ops := ops s @ [(files s, Unlink p)]\<rparr>"

text \<open>\<open>shutil.rmtree\<close> removes the directory and everything below it.\<close>

definition rmtree :: "path \<Rightarrow> state \<Rightarrow> state" where
  "rmtree p s =
     s\<lparr>files := (\<lambda>q. if q = p \<or> prefix (p @ ''/'') q then None else files s q),
       ops := ops s @ [(files s, Rmtree p)]\<rparr>"

subsection \<open>External commands\<close>

text \<open>
  What \<open>subprocess.run\<close> does with a command line: it returns a completed process
  with its return code, or raises (an interrupt while waiting, or an operating-system
  error).
\<close>

datatype proc = Returns int | Raises exc

type_synonym world = "string \<Rightarrow> proc"

text \<open>
  \<open>run_command\<close>: with \<open>check\<close> a non-zero return code raises
  \<open>CalledProcessError\<close>, which is caught, reported and turned into \<open>None\<close>; any other
  exception propagates.
\<close>

definition run_command :: "world \<Rightarrow> string \<Rightarrow> bool \<Rightarrow> state \<Rightarrow> (exc + int option) \<times> state" where
  "run_command w cmd check s =
     (case w cmd of
        Raises e \<Rightarrow> (Inl e, s)
      | Returns rc \<Rightarrow>
          if check \<and> rc \<noteq> 0 then (Inr None, say (CommandFailed cmd) s)
          else (Inr (Some rc), s))"

text \<open>The test \<open>not result or result.returncode != 0\<close>.\<close>

definition failed :: "int option \<Rightarrow> bool" where
  "failed r = (case r of None \<Rightarrow> True | Some rc \<Rightarrow> rc \<noteq> 0)"

subsection \<open>The steps of the workflow\<close>

definition check_prerequisites :: "world \<Rightarrow> state \<Rightarrow> (exc + bool) \<times> state" where
  "check_prerequisites w s =
     (let s1 = say CheckingPrerequisites s in
      if \<not> path_exists (files s1) ''pyproject.toml'' then (Inr False, say NoPyprojectFound s1)
      else
        case run_command w ''uv --version'' False s1 of
          (Inl e, s2) \<Rightarrow> (Inl e, s2)
        | (Inr uv_result, s2) \<Rightarrow>
            if failed uv_result then (Inr False, say UVNotFound s2)
            else
              (let s3 = say UVFound s2 in
               case run_command w ''poetry --version'' False s3 of
                 (Inl e, s4) \<Rightarrow> (Inl e, s4)
               | (Inr poetry_result, s4) \<Rightarrow>
                   (Inr True,
                    say (if \<not> failed poetry_result then PoetryFound else PoetryNotFound) s4)))"

definition files_to_backup :: "(path \<times> path) list" where
  "files_to_backup =
     [(''pyproject.toml'', ''pyproject.poetry.toml''), (''poetry.lock'', ''poetry.lock.bak'')]"

fun backup_loop :: "(path \<times> path) list \<Rightarrow> state \<Rightarrow> (exc + unit) \<times> state" where
  "backup_loop [] s = (Inr (), s)"
| "backup_loop ((original, backup) # rest) s =
     (if path_exists (files s) original then
        (case copy2 original backup s of
           (Inl e, s') \<Rightarrow> (Inl e, s')
         | (Inr u, s') \<Rightarrow> backup_loop rest (say (BackedUp original backup) s'))
      else backup_loop rest s)"

definition backup_existing_files :: "state \<Rightarrow> (exc + unit) \<times> state" where
  "backup_existing_files s =
     (case backup_loop files_to_backup (say CreatingBackups s) of
        (Inl e, s') \<Rightarrow> (Inl e, s')
      | (Inr u, s') \<Rightarrow> (Inr (), say BackupsCreated s'))"

definition setup_uv_configuration :: "state \<Rightarrow> (exc + bool) \<times> state" where
  "setup_uv_configuration s =
     (let s1 = say SettingUpUV s in
      if path_exists (files s1) ''pyproject.uv.toml'' then
        (case copy2 ''pyproject.uv.toml'' ''pyproject.toml'' s1 of
           (Inl e, s2) \<Rightarrow> (Inl e, s2)
         | (Inr u, s2) \<Rightarrow> (Inr True, say CopiedUVConfig s2))
      else (Inr False, say UVConfigNotFound s1))"

definition install_dependencies :: "world \<Rightarrow> state \<Rightarrow> (exc + bool) \<times> state" where
  "install_dependencies w s =
     (case run_command w ''uv sync --dev'' True (say InstallingDependencies s) of
        (Inl e, s1) \<Rightarrow> (Inl e, s1)
      | (Inr result, s1) \<Rightarrow>
          if failed result then (Inr False, say InstallFailed s1)
          else (Inr True, say DependenciesInstalled s1))"

definition setup_pre_commit :: "world \<Rightarrow> state \<Rightarrow> (exc + bool) \<times> state" where
  "setup_pre_commit w s =
     (case run_command w ''uv run pre-commit install'' True (say SettingUpPreCommit s) of
        (Inl e, s1) \<Rightarrow> (Inl e, s1)
      | (Inr result, s1) \<Rightarrow>
          if failed result then (Inr False, say PreCommitFailed s1)
          else (Inr True, say PreCommitInstalled s1))"

definition import_cmd :: string where
  "import_cmd =
     ''uv run python -c 'import themefinder; print(\"ThemeFinder import successful\")'' @ [CHR 0x27]"

definition verify_installation :: "world \<Rightarrow> state \<Rightarrow> (exc + bool) \<times> state" where
  "verify_installation w s =
     (case run_command w ''uv run python --version'' True (say Verifying s) of
        (Inl e, s1) \<Rightarrow> (Inl e, s1)
      | (Inr r1, s1) \<Rightarrow>
          if failed r1 then (Inr False, say PythonNotWorking s1)
          else
            (case run_command w import_cmd True (say PythonVersion s1) of
               (Inl e, s2) \<Rightarrow> (Inl e, s2)
             | (Inr r2, s2) \<Rightarrow>
                 if failed r2 then (Inr False, say ImportFailed s2)
                 else
                   (case run_command w ''uv run pytest --version'' True (say ImportOK s2) of
                      (Inl e, s3) \<Rightarrow> (Inl e, s3)
                    | (Inr r3, s3) \<Rightarrow>
                        (Inr True,
                         say InstallationVerified
                           (say (if failed r3 then PytestNotAvailable else PytestVersion) s3)))))"

definition files_to_remove :: "path list" where
  "files_to_remove = [''poetry.lock.bak'', ''pyproject.poetry.toml'', ''.venv'']"

fun remove_loop :: "path list \<Rightarrow> state \<Rightarrow> state" where
  "remove_loop [] s = s"
| "remove_loop (file_path # rest) s =
     (if path_exists (files s) file_path then
        (if is_dir (files s) file_path
         then remove_loop rest (say (RemovedDirectory file_path) (rmtree file_path s))
         else remove_loop rest (say (RemovedFile file_path) (unlink file_path s)))
      else remove_loop rest s)"

definition cleanup_poetry_files :: "bool \<Rightarrow> state \<Rightarrow> state" where
  "cleanup_poetry_files keep_backups s =
     (if \<not> keep_backups then remove_loop files_to_remove (say CleaningUp s)
      else say KeepingBackups s)"

definition show_next_steps :: "state \<Rightarrow> state" where
  "show_next_steps s = say NextSteps s"

subsection \<open>The orchestrating routine\<close>

record args =
  cleanup :: bool
  force :: bool

text \<open>
  What leaves the \<open>try\<close> block other than by falling off its end: an exception, or
  the \<open>SystemExit\<close> of a \<open>sys.exit\<close> (which neither handler catches).
\<close>

datatype signal = Raise exc | SysExit int

definition lift_exc :: "(exc + 'a) \<times> state \<Rightarrow> (signal + 'a) \<times> state" where
  "lift_exc r = (case r of (Inl e, s) \<Rightarrow> (Inl (Raise e), s) | (Inr v, s) \<Rightarrow> (Inr v, s))"

text \<open>The body of the \<open>try\<close> block of \<open>main\<close>.\<close>

definition try_body :: "world \<Rightarrow> args \<Rightarrow> state \<Rightarrow> (signal + unit) \<times> state" where
  "try_body w a s =
     (case lift_exc (backup_existing_files s) of
        (Inl sg, s1) \<Rightarrow> (Inl sg, s1)
      | (Inr u, s1) \<Rightarrow>
     (case lift_exc (setup_uv_configuration s1) of
        (Inl sg, s2) \<Rightarrow> (Inl sg, s2)
      | (Inr ok2, s2) \<Rightarrow>
     if \<not> ok2 then (Inl (SysExit 1), s2) else
     (case lift_exc (install_dependencies w s2) of
        (Inl sg, s3) \<Rightarrow> (Inl sg, s3)
      | (Inr ok3, s3) \<Rightarrow>
     if \<not> ok3 then (Inl (SysExit 1), s3) else
     (case lift_exc (setup_pre_commit w s3) of
        (Inl sg, s4) \<Rightarrow> (Inl sg, s4)
      | (Inr ok4, s4) \<Rightarrow>
     (case lift_exc (verify_installation w s4) of
        (Inl sg, s5) \<Rightarrow> (Inl sg, s5)
      | (Inr ok5, s5) \<Rightarrow>
          (Inr (),
           show_next_steps
             (cleanup_poetry_files (\<not> cleanup a)
                (if \<not> ok5 then say MayHaveIssues s5 else s5))))))))"

text \<open>
  How the process ends: \<open>Exit n\<close> for \<open>sys.exit(n)\<close> (and \<open>Exit 0\<close> for returning
  from \<open>main\<close>), \<open>Uncaught e\<close> for an exception that no handler of the script catches.
\<close>

datatype outcome = Exit int | Uncaught exc

definition main :: "world \<Rightarrow> args \<Rightarrow> fs \<Rightarrow> outcome \<times> state" where
  "main w a f =
     (case check_prerequisites w (say Banner (init f)) of
        (Inl e, s1) \<Rightarrow> (Uncaught e, s1)
      | (Inr ok, s1) \<Rightarrow>
          if \<not> ok then (Exit 1, s1)
          else if path_exists (files s1) ''uv.lock'' \<and> \<not> force a
          then (Exit 0, say UVAlreadyExists s1)
          else
            (case try_body w a s1 of
               (Inr u, s2) \<Rightarrow> (Exit 0, s2)
             | (Inl (SysExit n), s2) \<Rightarrow> (Exit n, s2)
             | (Inl (Raise KeyboardInterrupt), s2) \<Rightarrow> (Exit 1, say MigrationCancelled s2)
             | (Inl (Raise e), s2) \<Rightarrow> (Exit 1, say MigrationFailed s2)))"

subsection \<open>Conditions on the inputs of a run\<close>

text \<open>
  The prerequisite check lets the run continue: the marker file is there, the probe of
  the new tool returns 0, and the probe of the old tool returns (with any status).
\<close>

definition prerequisites_pass :: "world \<Rightarrow> fs \<Rightarrow> bool" where
  "prerequisites_pass w f =
     (path_exists f ''pyproject.toml'' \<and> w ''uv --version'' = Returns 0 \<and>
      (case w ''poetry --version'' of Returns rc \<Rightarrow> True | Raises e \<Rightarrow> False))"

text \<open>A command runs and ends with a non-zero status.\<close>

definition cmd_fails :: "world \<Rightarrow> string \<Rightarrow> bool" where
  "cmd_fails w cmd = (case w cmd of Returns rc \<Rightarrow> rc \<noteq> 0 | Raises e \<Rightarrow> False)"

text \<open>The new tool is not invocable: the shell reports a non-zero status for its probe.\<close>

definition uv_not_invocable :: "world \<Rightarrow> bool" where
  "uv_not_invocable w = cmd_fails w ''uv --version''"

text \<open>
  How far a run gets. \<open>protected_entry\<close> is the state in which the \<open>try\<close> block is
  entered (the prerequisite check returned \<open>True\<close> and the run is not the
  already-migrated no-op); \<open>before_install\<close> is the state in which
  \<open>install_dependencies\<close> is called (backup and configuration swap succeeded);
  \<open>before_verification\<close> is the state in which \<open>verify_installation\<close> is called
  (the installation succeeded and the hook setup returned). Each is \<open>None\<close> for a
  run that does not get that far.
\<close>

definition protected_entry :: "world \<Rightarrow> args \<Rightarrow> fs \<Rightarrow> state option" where
  "protected_entry w a f =
     (case check_prerequisites w (say Banner (init f)) of
        (Inr True, s1) \<Rightarrow>
          if path_exists (files s1) ''uv.lock'' \<and> \<not> force a then None else Some s1
      | _ \<Rightarrow> None)"

definition before_install :: "world \<Rightarrow> args \<Rightarrow> fs \<Rightarrow> state option" where
  "before_install w a f =
     (case protected_entry w a f of
        None \<Rightarrow> None
      | Some s1 \<Rightarrow>
          (case backup_existing_files s1 of
             (Inr u, s2) \<Rightarrow>
               (case setup_uv_configuration s2 of (Inr True, s3) \<Rightarrow> Some s3 | _ \<Rightarrow> None)
           | _ \<Rightarrow> None))"

definition before_verification :: "world \<Rightarrow> args \<Rightarrow> fs \<Rightarrow> state option" where
  "before_verification w a f =
     (case before_install w a f of
        None \<Rightarrow> None
      | Some s3 \<Rightarrow>
          (case install_dependencies w s3 of
             (Inr True, s4) \<Rightarrow>
               (case setup_pre_commit w s4 of (Inr ok, s5) \<Rightarrow> Some s5 | _ \<Rightarrow> None)
           | _ \<Rightarrow> None))"

text \<open>
  A file operation overwrites the active configuration file; and the property of a
  trace that every such operation is applied to a filesystem in which the original
  \<open>pyproject.toml\<close> of \<open>f\<close> is still in place and its backup (the path that the
  copy to \<open>pyproject.poetry.toml\<close> writes) already holds its content, the trace having
  started with that backup copy.
\<close>

definition overwrites :: "fileop \<Rightarrow> bool" where
  "overwrites op = (case op of Copy src dst \<Rightarrow> dst = ''pyproject.toml'' | _ \<Rightarrow> False)"

definition backup_precedes_overwrite :: "fs \<Rightarrow> (fs \<times> fileop) list \<Rightarrow> bool" where
  "backup_precedes_overwrite f trace =
     (\<forall>(g, op) \<in> set trace. overwrites op \<longrightarrow>
        path_exists f ''pyproject.toml'' \<and>
        hd trace =
          (f, Copy ''pyproject.toml'' (copy_target f ''pyproject.toml'' ''pyproject.poetry.toml'')) \<and>
        g ''pyproject.toml'' = f ''pyproject.toml'' \<and>
        path_exists g ''pyproject.poetry.toml'' \<and>
        g (copy_target f ''pyproject.toml'' ''pyproject.poetry.toml'') = f ''pyproject.toml'')"

subsection \<open>Concrete runs\<close>

definition all_succeed :: world where
  "all_succeed cmd = Returns 0"

definition uv_missing :: world where
  "uv_missing cmd = (if cmd = ''uv --version'' then Returns 127 else Returns 0)"

definition import_fails :: world where
  "import_fails cmd = (if cmd = import_cmd then Returns 1 else Returns 0)"

definition sync_fails :: world where
  "sync_fails cmd = (if cmd = ''uv sync --dev'' then Returns 2 else Returns 0)"

definition no_flags :: args where
  "no_flags = \<lparr>cleanup = False, force = False\<rparr>"

definition cleanup_flag :: args where
  "cleanup_flag = \<lparr>cleanup = True, force = False\<rparr>"

definition poetry_project :: fs where
  "poetry_project =
     [''pyproject.toml'' \<mapsto> File ''[tool.poetry]'', ''poetry.lock'' \<mapsto> File ''# lock'',
      ''pyproject.uv.toml'' \<mapsto> File ''[project]'', ''.venv'' \<mapsto> Dir]"


definition migrated_project :: fs where
  "migrated_project =
     [''pyproject.toml'' \<mapsto> File ''[project]'', ''uv.lock'' \<mapsto> File ''version = 1'']"

definition lock_only :: fs where
  "lock_only = [''uv.lock'' \<mapsto> File ''version = 1'']"

definition empty_directory :: fs where
  "empty_directory = Map.empty"

section \<open>Properties of the steps\<close>

subsection \<open>Unfolding the model on concrete inputs\<close>

lemmas model_defs = main_def try_body_def lift_exc_def check_prerequisites_def
  backup_existing_files_def files_to_backup_def setup_uv_configuration_def
  install_dependencies_def setup_pre_commit_def verify_installation_def
  cleanup_poetry_files_def files_to_remove_def show_next_steps_def
  run_command_def failed_def copy2_def copy_target_def unlink_def rmtree_def say_def init_def
  path_exists_def is_dir_def import_cmd_def Let_def

subsection \<open>Case analysis of the protected segment\<close>

lemma try_body_cases:
  assumes "try_body w a s = (r, s')"
  obtains
    (backup_raised) e where "backup_existing_files s = (Inl e, s')" "r = Inl (Raise e)"
  | (setup_raised) s1 e where "backup_existing_files s = (Inr (), s1)"
      "setup_uv_configuration s1 = (Inl e, s')" "r = Inl (Raise e)"
  | (config_absent) s1 where "backup_existing_files s = (Inr (), s1)"
      "setup_uv_configuration s1 = (Inr False, s')" "r = Inl (SysExit 1)"
  | (install_raised) s1 s2 e where "backup_existing_files s = (Inr (), s1)"
      "setup_uv_configuration s1 = (Inr True, s2)"
      "install_dependencies w s2 = (Inl e, s')" "r = Inl (Raise e)"
  | (install_failed) s1 s2 where "backup_existing_files s = (Inr (), s1)"
      "setup_uv_configuration s1 = (Inr True, s2)"
      "install_dependencies w s2 = (Inr False, s')" "r = Inl (SysExit 1)"
  | (hooks_raised) s1 s2 s3 e where "backup_existing_files s = (Inr (), s1)"
      "setup_uv_configuration s1 = (Inr True, s2)"
      "install_dependencies w s2 = (Inr True, s3)"
      "setup_pre_commit w s3 = (Inl e, s')" "r = Inl (Raise e)"
  | (verify_raised) s1 s2 s3 ok4 s4 e where "backup_existing_files s = (Inr (), s1)"
      "setup_uv_configuration s1 = (Inr True, s2)"
      "install_dependencies w s2 = (Inr True, s3)"
      "setup_pre_commit w s3 = (Inr ok4, s4)"
      "verify_installation w s4 = (Inl e, s')" "r = Inl (Raise e)"
  | (completed) s1 s2 s3 ok4 s4 ok5 s5 where "backup_existing_files s = (Inr (), s1)"
      "setup_uv_configuration s1 = (Inr True, s2)"
      "install_dependencies w s2 = (Inr True, s3)"
      "setup_pre_commit w s3 = (Inr ok4, s4)"
      "verify_installation w s4 = (Inr ok5, s5)"
      "r = Inr ()"
      "s' = show_next_steps (cleanup_poetry_files (\<not> cleanup a)
              (if \<not> ok5 then say MayHaveIssues s5 else s5))"
  using assms unfolding try_body_def lift_exc_def
  by (auto split: prod.splits sum.splits if_splits)

subsection \<open>The prerequisite check, the command steps and the configuration swap\<close>

lemma main_cases:
  assumes "main w a f = (r, s')"
  obtains
    (probe_raised) e where "check_prerequisites w (say Banner (init f)) = (Inl e, s')"
      "r = Uncaught e"
  | (prereq_failed) "check_prerequisites w (say Banner (init f)) = (Inr False, s')" "r = Exit 1"
  | (already_migrated) s1 where "check_prerequisites w (say Banner (init f)) = (Inr True, s1)"
      "path_exists (files s1) ''uv.lock''" "\<not> force a" "r = Exit 0" "s' = say UVAlreadyExists s1"
  | (finished) s1 where "check_prerequisites w (say Banner (init f)) = (Inr True, s1)"
      "\<not> (path_exists (files s1) ''uv.lock'' \<and> \<not> force a)"
      "try_body w a s1 = (Inr (), s')" "r = Exit 0"
  | (exited) s1 n where "check_prerequisites w (say Banner (init f)) = (Inr True, s1)"
      "\<not> (path_exists (files s1) ''uv.lock'' \<and> \<not> force a)"
      "try_body w a s1 = (Inl (SysExit n), s')" "r = Exit n"
  | (cancelled) s1 s2 where "check_prerequisites w (say Banner (init f)) = (Inr True, s1)"
      "\<not> (path_exists (files s1) ''uv.lock'' \<and> \<not> force a)"
      "try_body w a s1 = (Inl (Raise KeyboardInterrupt), s2)" "r = Exit 1"
      "s' = say MigrationCancelled s2"
  | (failed) s1 s2 e where "check_prerequisites w (say Banner (init f)) = (Inr True, s1)"
      "\<not> (path_exists (files s1) ''uv.lock'' \<and> \<not> force a)"
      "try_body w a s1 = (Inl (Raise e), s2)" "e \<noteq> KeyboardInterrupt" "r = Exit 1"
      "s' = say MigrationFailed s2"
  using assms unfolding main_def
  by (auto split: prod.splits sum.splits if_splits signal.splits exc.splits)

lemma run_command_frame:
  "run_command w c ch s = (r, s') \<Longrightarrow> files s' = files s \<and> ops s' = ops s"
  by (auto simp: run_command_def say_def split: proc.splits if_splits)

lemma check_prerequisites_frame:
  "check_prerequisites w s = (r, s') \<Longrightarrow> files s' = files s \<and> ops s' = ops s"
  by (auto simp: check_prerequisites_def run_command_def say_def Let_def split: proc.splits if_splits)

lemma check_prerequisites_True:
  "check_prerequisites w s = (r, s') \<Longrightarrow> (r = Inr True) = prerequisites_pass w (files s)"
  by (auto simp: check_prerequisites_def run_command_def say_def Let_def prerequisites_pass_def failed_def
      split: proc.splits if_splits)

lemma check_prerequisites_fail:
  "\<not> path_exists (files s) ''pyproject.toml'' \<or> uv_not_invocable w \<Longrightarrow>
   fst (check_prerequisites w s) = Inr False"
  by (auto simp: check_prerequisites_def run_command_def say_def Let_def uv_not_invocable_def cmd_fails_def failed_def
      split: proc.splits if_splits)

lemma check_prerequisites_last:
  "check_prerequisites w s = (r, s') \<Longrightarrow>
   (case r of
      Inl e \<Rightarrow> last (out s') = CheckingPrerequisites \<or> last (out s') = UVFound
    | Inr ok \<Rightarrow> if ok then last (out s') = PoetryFound \<or> last (out s') = PoetryNotFound
               else last (out s') = NoPyprojectFound \<or> last (out s') = UVNotFound)"
  by (auto simp: check_prerequisites_def run_command_def say_def Let_def
      split: proc.splits if_splits)

lemma install_dependencies_frame:
  "install_dependencies w s = (r, s') \<Longrightarrow> files s' = files s \<and> ops s' = ops s"
  by (auto simp: install_dependencies_def run_command_def say_def split: proc.splits if_splits)

lemma install_dependencies_False:
  "install_dependencies w s = (Inr False, s') \<Longrightarrow> last (out s') = InstallFailed"
  by (auto simp: install_dependencies_def run_command_def say_def split: proc.splits if_splits)

lemma setup_pre_commit_frame:
  "setup_pre_commit w s = (r, s') \<Longrightarrow> files s' = files s \<and> ops s' = ops s"
  by (auto simp: setup_pre_commit_def run_command_def say_def split: proc.splits if_splits)

lemma verify_installation_frame:
  "verify_installation w s = (r, s') \<Longrightarrow> files s' = files s \<and> ops s' = ops s"
  by (auto simp: verify_installation_def run_command_def say_def split: proc.splits if_splits)

lemma setup_uv_configuration_False:
  "setup_uv_configuration s = (Inr False, s') \<Longrightarrow>
   files s' = files s \<and> ops s' = ops s \<and> last (out s') = UVConfigNotFound \<and>
   \<not> path_exists (files s) ''pyproject.uv.toml''"
  by (auto simp: setup_uv_configuration_def say_def Let_def split: prod.splits sum.splits if_splits)

lemma setup_uv_configuration_absent:
  "\<not> path_exists (files s) ''pyproject.uv.toml'' \<Longrightarrow> setup_uv_configuration s = (r, s') \<Longrightarrow>
   r = Inr False \<and> files s' = files s \<and> ops s' = ops s"
  by (auto simp: setup_uv_configuration_def say_def Let_def split: prod.splits sum.splits if_splits)

lemma setup_uv_configuration_raised:
  "setup_uv_configuration s = (Inl e, s') \<Longrightarrow> files s' = files s \<and> ops s' = ops s"
  by (auto simp: setup_uv_configuration_def say_def Let_def copy2_def copy_target_def
      split: prod.splits sum.splits if_splits option.splits node.splits)

lemma setup_uv_configuration_True:
  "setup_uv_configuration s = (Inr True, s') \<Longrightarrow> \<not> is_dir (files s) ''pyproject.toml'' \<Longrightarrow>
   (\<exists>c. files s ''pyproject.uv.toml'' = Some (File c) \<and>
        files s' = (files s)(''pyproject.toml'' \<mapsto> File c) \<and>
        ops s' = ops s @ [(files s, Copy ''pyproject.uv.toml'' ''pyproject.toml'')])"
  by (auto simp: setup_uv_configuration_def say_def Let_def copy2_def copy_target_def
      split: prod.splits sum.splits if_splits option.splits node.splits)

subsection \<open>Copying and the backup loop\<close>

lemma copy2_raised: "copy2 src dst s = (Inl e, s') \<Longrightarrow> s' = s"
  by (auto simp: copy2_def copy_target_def Let_def split: option.splits node.splits if_splits)

lemma copy2_done:
  "copy2 src dst s = (Inr u, s') \<Longrightarrow>
   \<exists>c. files s src = Some (File c) \<and>
     s' = s\<lparr>files := (files s)(copy_target (files s) src dst \<mapsto> File c),
            ops := ops s @ [(files s, Copy src (copy_target (files s) src dst))]\<rparr>"
  by (auto simp: copy2_def Let_def split: option.splits node.splits if_splits)

lemma copy_target_cases:
  "copy_target f src dst = dst \<or> copy_target f src dst = dst @ ''/'' @ src"
  by (simp add: copy_target_def)

lemma copy2_other:
  "copy2 src dst s = (r, s') \<Longrightarrow> p \<noteq> dst \<Longrightarrow> p \<noteq> dst @ ''/'' @ src \<Longrightarrow> files s' p = files s p"
  by (auto simp: copy2_def copy_target_def Let_def split: option.splits node.splits if_splits)

lemma backup_loop_other:
  "backup_loop ps s = (r, s') \<Longrightarrow> \<forall>(a, b) \<in> set ps. p \<noteq> b \<and> p \<noteq> b @ ''/'' @ a \<Longrightarrow>
   files s' p = files s p"
proof (induction ps s arbitrary: r s' rule: backup_loop.induct)
  case (1 s)
  then show ?case by simp
next
  case (2 original backup rest s)
  show ?case
  proof (cases "path_exists (files s) original")
    case False
    with 2 show ?thesis by simp
  next
    case True
    obtain r1 s1 where c: "copy2 original backup s = (r1, s1)" by (cases "copy2 original backup s")
    have f1: "files s1 p = files s p" using copy2_other[OF c, of p] 2(4) by simp
    show ?thesis
    proof (cases r1)
      case (Inl e)
      with 2(3) True c f1 show ?thesis by simp
    next
      case (Inr u)
      with 2(3) True c have "backup_loop rest (say (BackedUp original backup) s1) = (r, s')"
        by simp
      from 2(1)[OF True c[symmetric] Inr this] 2(4) f1 show ?thesis
        by (simp add: say_def)
    qed
  qed
qed

lemma backup_loop_ops:
  "backup_loop ps s = (r, s') \<Longrightarrow>
   \<forall>(a, b) \<in> set ps. P (Copy a b) \<and> P (Copy a (b @ ''/'' @ a)) \<Longrightarrow>
   \<exists>xs. ops s' = ops s @ xs \<and> (\<forall>x \<in> set xs. P (snd x))"
proof (induction ps s arbitrary: r s' rule: backup_loop.induct)
  case (1 s)
  then show ?case by simp
next
  case (2 original backup rest s)
  have P: "P (Copy original backup)" "P (Copy original (backup @ ''/'' @ original))"
    and R: "\<forall>(a, b) \<in> set rest. P (Copy a b) \<and> P (Copy a (b @ ''/'' @ a))"
    using 2(4) by simp_all
  show ?case
  proof (cases "path_exists (files s) original")
    case False
    with 2(3) have "backup_loop rest s = (r, s')" by simp
    from 2(2)[OF False this R] show ?thesis .
  next
    case True
    obtain r1 s1 where c: "copy2 original backup s = (r1, s1)" by (cases "copy2 original backup s")
    show ?thesis
    proof (cases r1)
      case (Inl e)
      with 2(3) True c copy2_raised[of original backup s e s1] show ?thesis by simp
    next
      case (Inr u)
      with 2(3) True c have l: "backup_loop rest (say (BackedUp original backup) s1) = (r, s')"
        by simp
      from copy2_done[of original backup s u s1] c Inr copy_target_cases[of "files s" original backup]
      obtain tgt where t: "tgt = backup \<or> tgt = backup @ ''/'' @ original"
        "ops s1 = ops s @ [(files s, Copy original tgt)]" by auto
      from 2(1)[OF True c[symmetric] Inr l R]
      obtain xs where x: "ops s' = ops (say (BackedUp original backup) s1) @ xs"
        "\<forall>x \<in> set xs. P (snd x)"
        by blast
      have "ops s' = ops s @ ((files s, Copy original tgt) # xs)"
        using x(1) t(2) by (simp add: say_def)
      moreover have "\<forall>x \<in> set ((files s, Copy original tgt) # xs). P (snd x)"
        using x(2) t(1) P by auto
      ultimately show ?thesis by blast
    qed
  qed
qed

lemma backup_loop_head:
  assumes "backup_loop ((a, b) # rest) s = (Inr u, s')" "path_exists (files s) a"
  shows "\<exists>c s1. files s a = Some (File c) \<and>
           files s1 = (files s)(copy_target (files s) a b \<mapsto> File c) \<and>
           ops s1 = ops s @ [(files s, Copy a (copy_target (files s) a b))] \<and>
           backup_loop rest s1 = (Inr u, s')"
proof -
  obtain r1 s1 where c: "copy2 a b s = (r1, s1)" by (cases "copy2 a b s")
  show ?thesis
  proof (cases r1)
    case (Inl e)
    with assms c show ?thesis by simp
  next
    case (Inr v)
    with assms c have l: "backup_loop rest (say (BackedUp a b) s1) = (Inr u, s')" by simp
    from copy2_done[of a b s v s1] c Inr
    obtain cc where "files s a = Some (File cc)"
      "s1 = s\<lparr>files := (files s)(copy_target (files s) a b \<mapsto> File cc),
               ops := ops s @ [(files s, Copy a (copy_target (files s) a b))]\<rparr>"
      by auto
    with l show ?thesis by (intro exI[of _ cc] exI[of _ "say (BackedUp a b) s1"]) (simp add: say_def)
  qed
qed

subsection \<open>The backup step\<close>

lemma backup_existing_files_loop:
  assumes "backup_existing_files s = (r, s')"
  obtains s1 where "backup_loop files_to_backup (say CreatingBackups s) = (r, s1)"
    "files s' = files s1" "ops s' = ops s1"
    "MayHaveIssues \<in> set (out s') \<longrightarrow> MayHaveIssues \<in> set (out s1)"
proof -
  obtain r1 s1 where b: "backup_loop files_to_backup (say CreatingBackups s) = (r1, s1)"
    by (cases "backup_loop files_to_backup (say CreatingBackups s)")
  with assms have "r1 = r \<and> files s' = files s1 \<and> ops s' = ops s1 \<and>
      (MayHaveIssues \<in> set (out s') \<longrightarrow> MayHaveIssues \<in> set (out s1))"
    by (cases r1) (auto simp: backup_existing_files_def say_def)
  with b that show ?thesis by blast
qed

lemma backup_existing_files_keeps:
  assumes "backup_existing_files s = (r, s')"
    and "p \<notin> {''pyproject.poetry.toml'', ''pyproject.poetry.toml/pyproject.toml'',
                ''poetry.lock.bak'', ''poetry.lock.bak/poetry.lock''}"
  shows "files s' p = files s p"
proof -
  from assms(1) obtain s1 where b: "backup_loop files_to_backup (say CreatingBackups s) = (r, s1)"
    and f: "files s' = files s1" by (rule backup_existing_files_loop)
  have "files s1 p = files (say CreatingBackups s) p"
    using backup_loop_other[OF b, of p] assms(2) by (simp add: files_to_backup_def)
  with f show ?thesis by (simp add: say_def)
qed

lemma backup_existing_files_ops:
  assumes "backup_existing_files s = (r, s')"
    and "\<forall>(a, b) \<in> set files_to_backup. P (Copy a b) \<and> P (Copy a (b @ ''/'' @ a))"
  shows "\<exists>xs. ops s' = ops s @ xs \<and> (\<forall>x \<in> set xs. P (snd x))"
proof -
  from assms(1) obtain s1 where b: "backup_loop files_to_backup (say CreatingBackups s) = (r, s1)"
    and f: "ops s' = ops s1" by (rule backup_existing_files_loop)
  from backup_loop_ops[OF b assms(2)] f show ?thesis by (simp add: say_def)
qed

lemma backup_existing_files_config_target:
  assumes "backup_existing_files s = (Inr u, s')" "path_exists (files s) ''pyproject.toml''"
  shows "(\<exists>c. files s ''pyproject.toml'' = Some (File c)) \<and>
         files s' (copy_target (files s) ''pyproject.toml'' ''pyproject.poetry.toml'') =
           files s ''pyproject.toml'' \<and>
         path_exists (files s') ''pyproject.poetry.toml'' \<and>
         (\<exists>xs. ops s' = ops s @
            (files s, Copy ''pyproject.toml''
               (copy_target (files s) ''pyproject.toml'' ''pyproject.poetry.toml'')) # xs)"
proof -
  let ?s0 = "say CreatingBackups s"
  let ?t = "copy_target (files s) ''pyproject.toml'' ''pyproject.poetry.toml''"
  from assms(1) obtain s3 where
    b: "backup_loop files_to_backup ?s0 = (Inr u, s3)"
    and f: "files s' = files s3" "ops s' = ops s3" by (rule backup_existing_files_loop)
  have b': "backup_loop ((''pyproject.toml'', ''pyproject.poetry.toml'') #
              [(''poetry.lock'', ''poetry.lock.bak'')]) ?s0 = (Inr u, s3)"
    using b by (simp add: files_to_backup_def)
  have e: "path_exists (files ?s0) ''pyproject.toml''" using assms(2) by (simp add: say_def)
  have s0: "files ?s0 = files s" "ops ?s0 = ops s" by (simp_all add: say_def)
  from backup_loop_head[OF b' e] s0 obtain c s1 where h:
    "files s ''pyproject.toml'' = Some (File c)"
    "files s1 = (files s)(?t \<mapsto> File c)"
    "ops s1 = ops s @ [(files s, Copy ''pyproject.toml'' ?t)]"
    "backup_loop [(''poetry.lock'', ''poetry.lock.bak'')] s1 = (Inr u, s3)" by auto
  have t: "?t = ''pyproject.poetry.toml'' \<or> ?t = ''pyproject.poetry.toml/pyproject.toml''"
    using copy_target_cases[of "files s" "''pyproject.toml''" "''pyproject.poetry.toml''"] by simp
  then have k: "files s3 ?t = files s1 ?t"
    using backup_loop_other[OF h(4), of ?t] by auto
  have k2: "files s3 ''pyproject.poetry.toml'' = files s1 ''pyproject.poetry.toml''"
    using backup_loop_other[OF h(4), of "''pyproject.poetry.toml''"] by simp
  have "files s1 ''pyproject.poetry.toml'' \<noteq> None"
    using h(2) by (auto simp: copy_target_def is_dir_def)
  then have p: "path_exists (files s') ''pyproject.poetry.toml''"
    using k2 f(1) by (simp add: path_exists_def)
  from backup_loop_ops[OF h(4), of "\<lambda>x. True"] obtain xs where "ops s3 = ops s1 @ xs" by auto
  with h k f p show ?thesis by simp
qed


lemma backup_existing_files_lock_target:
  assumes "backup_existing_files s = (Inr u, s')" "path_exists (files s) ''poetry.lock''"
  shows "(\<exists>c. files s ''poetry.lock'' = Some (File c)) \<and>
         files s' (copy_target (files s) ''poetry.lock'' ''poetry.lock.bak'') =
           files s ''poetry.lock''"
proof -
  let ?s0 = "say CreatingBackups s"
  from assms(1) obtain s3 where
    b: "backup_loop files_to_backup ?s0 = (Inr u, s3)"
    and f: "files s' = files s3" by (rule backup_existing_files_loop)
  have b': "backup_loop ((''pyproject.toml'', ''pyproject.poetry.toml'') #
              [(''poetry.lock'', ''poetry.lock.bak'')]) ?s0 = (Inr u, s3)"
    using b by (simp add: files_to_backup_def)
  have "\<exists>s1. backup_loop [(''poetry.lock'', ''poetry.lock.bak'')] s1 = (Inr u, s3) \<and>
           files s1 ''poetry.lock'' = files s ''poetry.lock'' \<and>
           files s1 ''poetry.lock.bak'' = files s ''poetry.lock.bak''"
  proof (cases "path_exists (files ?s0) ''pyproject.toml''")
    case False
    with b' have "backup_loop [(''poetry.lock'', ''poetry.lock.bak'')] ?s0 = (Inr u, s3)" by simp
    moreover have "files ?s0 ''poetry.lock'' = files s ''poetry.lock''"
      "files ?s0 ''poetry.lock.bak'' = files s ''poetry.lock.bak''" by (simp_all add: say_def)
    ultimately show ?thesis by blast
  next
    case True
    obtain r1 s1 where c: "copy2 ''pyproject.toml'' ''pyproject.poetry.toml'' ?s0 = (r1, s1)"
      by (cases "copy2 ''pyproject.toml'' ''pyproject.poetry.toml'' ?s0")
    have o: "files s1 ''poetry.lock'' = files ?s0 ''poetry.lock''"
      "files s1 ''poetry.lock.bak'' = files ?s0 ''poetry.lock.bak''"
      using copy2_other[OF c, of "''poetry.lock''"] copy2_other[OF c, of "''poetry.lock.bak''"]
      by simp_all
    show ?thesis
    proof (cases r1)
      case (Inl e)
      with b' True c show ?thesis by simp
    next
      case (Inr v)
      let ?s2 = "say (BackedUp ''pyproject.toml'' ''pyproject.poetry.toml'') s1"
      from Inr b' True c have "backup_loop [(''poetry.lock'', ''poetry.lock.bak'')] ?s2 = (Inr u, s3)"
        by simp
      moreover have "files ?s2 ''poetry.lock'' = files s ''poetry.lock''"
        "files ?s2 ''poetry.lock.bak'' = files s ''poetry.lock.bak''"
        using o by (simp_all add: say_def)
      ultimately show ?thesis by blast
    qed
  qed
  then obtain s1 where l: "backup_loop ((''poetry.lock'', ''poetry.lock.bak'') # []) s1 = (Inr u, s3)"
    and o: "files s1 ''poetry.lock'' = files s ''poetry.lock''"
      "files s1 ''poetry.lock.bak'' = files s ''poetry.lock.bak''" by blast
  have e: "path_exists (files s1) ''poetry.lock''"
    using assms(2) o by (simp add: path_exists_def)
  have t: "copy_target (files s1) ''poetry.lock'' ''poetry.lock.bak'' =
           copy_target (files s) ''poetry.lock'' ''poetry.lock.bak''"
    using o(2) by (simp add: copy_target_def is_dir_def)
  from backup_loop_head[OF l e] t obtain c s2 where h:
    "files s1 ''poetry.lock'' = Some (File c)"
    "files s2 = (files s1)(copy_target (files s) ''poetry.lock'' ''poetry.lock.bak'' \<mapsto> File c)"
    "backup_loop [] s2 = (Inr u, s3)" by auto
  then have "s3 = s2" by simp
  with h o f show ?thesis by simp
qed


lemma backup_existing_files_last:
  "backup_existing_files s = (Inr u, s') \<Longrightarrow> last (out s') = BackupsCreated"
  by (cases "backup_loop files_to_backup (say CreatingBackups s)")
    (auto simp: backup_existing_files_def say_def split: sum.splits)

subsection \<open>Where the advisory warning can come from\<close>

lemma check_prerequisites_quiet:
  "check_prerequisites w s = (r, s') \<Longrightarrow> MayHaveIssues \<in> set (out s') \<Longrightarrow> MayHaveIssues \<in> set (out s)"
  by (auto simp: check_prerequisites_def run_command_def say_def Let_def split: proc.splits if_splits)

lemma backup_loop_quiet:
  "backup_loop ps s = (r, s') \<Longrightarrow> MayHaveIssues \<in> set (out s') \<Longrightarrow> MayHaveIssues \<in> set (out s)"
proof (induction ps s arbitrary: r s' rule: backup_loop.induct)
  case (1 s)
  then show ?case by simp
next
  case (2 original backup rest s)
  show ?case
  proof (cases "path_exists (files s) original")
    case False
    with 2(3) have "backup_loop rest s = (r, s')" by simp
    from 2(2)[OF False this 2(4)] show ?thesis .
  next
    case True
    obtain r1 s1 where c: "copy2 original backup s = (r1, s1)" by (cases "copy2 original backup s")
    show ?thesis
    proof (cases r1)
      case (Inl e)
      with 2(3,4) True c copy2_raised[of original backup s e s1] show ?thesis by simp
    next
      case (Inr u)
      with 2(3) True c have l: "backup_loop rest (say (BackedUp original backup) s1) = (r, s')"
        by simp
      from copy2_done[of original backup s u s1] c Inr have "out s1 = out s" by auto
      with 2(1)[OF True c[symmetric] Inr l 2(4)] show ?thesis by (simp add: say_def)
    qed
  qed
qed

lemma backup_existing_files_quiet:
  "backup_existing_files s = (r, s') \<Longrightarrow> MayHaveIssues \<in> set (out s') \<Longrightarrow> MayHaveIssues \<in> set (out s)"
proof -
  assume a: "backup_existing_files s = (r, s')" and m: "MayHaveIssues \<in> set (out s')"
  obtain r1 s1 where b: "backup_loop files_to_backup (say CreatingBackups s) = (r1, s1)"
    by (cases "backup_loop files_to_backup (say CreatingBackups s)")
  from a b m have "MayHaveIssues \<in> set (out s1)"
    by (cases r1) (auto simp: backup_existing_files_def say_def)
  from backup_loop_quiet[OF b this] show ?thesis by (simp add: say_def)
qed

lemma setup_uv_configuration_quiet:
  "setup_uv_configuration s = (r, s') \<Longrightarrow> MayHaveIssues \<in> set (out s') \<Longrightarrow> MayHaveIssues \<in> set (out s)"
  by (auto simp: setup_uv_configuration_def say_def Let_def copy2_def copy_target_def
      split: prod.splits sum.splits if_splits option.splits node.splits)

lemma install_dependencies_quiet:
  "install_dependencies w s = (r, s') \<Longrightarrow> MayHaveIssues \<in> set (out s') \<Longrightarrow> MayHaveIssues \<in> set (out s)"
  by (auto simp: install_dependencies_def run_command_def say_def split: proc.splits if_splits)

lemma setup_pre_commit_quiet:
  "setup_pre_commit w s = (r, s') \<Longrightarrow> MayHaveIssues \<in> set (out s') \<Longrightarrow> MayHaveIssues \<in> set (out s)"
  by (auto simp: setup_pre_commit_def run_command_def say_def split: proc.splits if_splits)

lemma verify_installation_quiet:
  "verify_installation w s = (r, s') \<Longrightarrow> MayHaveIssues \<in> set (out s') \<Longrightarrow> MayHaveIssues \<in> set (out s)"
  by (auto simp: verify_installation_def run_command_def say_def split: proc.splits if_splits)

lemma try_body_quiet:
  assumes "try_body w a s = (Inl sg, s')" "MayHaveIssues \<in> set (out s')"
  shows "MayHaveIssues \<in> set (out s)"
  using assms(1)
proof (cases rule: try_body_cases)
  case (backup_raised e)
  then show ?thesis using assms(2) backup_existing_files_quiet by blast
next
  case (setup_raised s1 e)
  then show ?thesis using assms(2) backup_existing_files_quiet setup_uv_configuration_quiet by blast
next
  case (config_absent s1)
  then show ?thesis using assms(2) backup_existing_files_quiet setup_uv_configuration_quiet by blast
next
  case (install_raised s1 s2 e)
  then show ?thesis using assms(2) backup_existing_files_quiet setup_uv_configuration_quiet
      install_dependencies_quiet by blast
next
  case (install_failed s1 s2)
  then show ?thesis using assms(2) backup_existing_files_quiet setup_uv_configuration_quiet
      install_dependencies_quiet by blast
next
  case (hooks_raised s1 s2 s3 e)
  then show ?thesis using assms(2) backup_existing_files_quiet setup_uv_configuration_quiet
      install_dependencies_quiet setup_pre_commit_quiet by blast
next
  case (verify_raised s1 s2 s3 ok4 s4 e)
  then show ?thesis using assms(2) backup_existing_files_quiet setup_uv_configuration_quiet
      install_dependencies_quiet setup_pre_commit_quiet verify_installation_quiet by blast
next
  case (completed s1 s2 s3 ok4 s4 ok5 s5)
  then show ?thesis by simp
qed

lemma try_body_last:
  assumes "try_body w a s = (r, s')"
  shows "case r of
           Inr u \<Rightarrow> last (out s') = NextSteps
         | Inl (SysExit n) \<Rightarrow> n = 1 \<and> (last (out s') = UVConfigNotFound \<or> last (out s') = InstallFailed)
         | Inl (Raise e) \<Rightarrow> True"
  using assms
proof (cases rule: try_body_cases)
  case (config_absent s1)
  then show ?thesis using setup_uv_configuration_False by simp
next
  case (install_failed s1 s2)
  then show ?thesis using install_dependencies_False by simp
next
  case (completed s1 s2 s3 ok4 s4 ok5 s5)
  then show ?thesis by (simp add: show_next_steps_def say_def)
qed simp_all

subsection \<open>Cleanup and verification\<close>

lemma remove_loop_absent:
  "files s p = None \<Longrightarrow> files (remove_loop ps s) p = None"
  by (induction ps s rule: remove_loop.induct) (simp_all add: say_def rmtree_def unlink_def)

lemma remove_loop_removed:
  "p \<in> set ps \<Longrightarrow> files (remove_loop ps s) p = None"
proof (induction ps s rule: remove_loop.induct)
  case (1 s)
  then show ?case by simp
next
  case (2 file_path rest s)
  show ?case
  proof (cases "p = file_path")
    case True
    then show ?thesis
      by (auto simp: path_exists_def say_def rmtree_def unlink_def intro!: remove_loop_absent)
  next
    case False
    with 2 show ?thesis by simp
  qed
qed

lemma remove_loop_ops:
  "\<forall>p \<in> set ps. P (Unlink p) \<and> P (Rmtree p) \<Longrightarrow>
   \<exists>xs. ops (remove_loop ps s) = ops s @ xs \<and> (\<forall>x \<in> set xs. P (snd x))"
proof (induction ps s rule: remove_loop.induct)
  case (1 s)
  then show ?case by simp
next
  case (2 file_path rest s)
  have R: "\<forall>p \<in> set rest. P (Unlink p) \<and> P (Rmtree p)" and
    P: "P (Unlink file_path)" "P (Rmtree file_path)" using 2(4) by simp_all
  show ?case
  proof (cases "path_exists (files s) file_path")
    case False
    with 2(3)[OF False R] show ?thesis by simp
  next
    case True
    show ?thesis
    proof (cases "is_dir (files s) file_path")
      case d: True
      from 2(1)[OF True d R] obtain xs where
        "ops (remove_loop rest (say (RemovedDirectory file_path) (rmtree file_path s))) =
           ops (say (RemovedDirectory file_path) (rmtree file_path s)) @ xs"
        "\<forall>x \<in> set xs. P (snd x)" by blast
      then have "ops (remove_loop (file_path # rest) s) = ops s @ ((files s, Rmtree file_path) # xs)
          \<and> (\<forall>x \<in> set ((files s, Rmtree file_path) # xs). P (snd x))"
        using True d P by (simp add: say_def rmtree_def)
      then show ?thesis by blast
    next
      case d: False
      from 2(2)[OF True d R] obtain xs where
        "ops (remove_loop rest (say (RemovedFile file_path) (unlink file_path s))) =
           ops (say (RemovedFile file_path) (unlink file_path s)) @ xs"
        "\<forall>x \<in> set xs. P (snd x)" by blast
      then have "ops (remove_loop (file_path # rest) s) = ops s @ ((files s, Unlink file_path) # xs)
          \<and> (\<forall>x \<in> set ((files s, Unlink file_path) # xs). P (snd x))"
        using True d P by (simp add: say_def unlink_def)
      then show ?thesis by blast
    qed
  qed
qed

lemma cleanup_poetry_files_keep:
  "files (cleanup_poetry_files True s) = files s \<and> ops (cleanup_poetry_files True s) = ops s"
  by (simp add: cleanup_poetry_files_def say_def)

lemma cleanup_poetry_files_removed:
  "p \<in> set files_to_remove \<Longrightarrow> files (cleanup_poetry_files False s) p = None"
  by (simp add: cleanup_poetry_files_def remove_loop_removed)

lemma cleanup_poetry_files_ops:
  "\<exists>xs. ops (cleanup_poetry_files k s) = ops s @ xs \<and>
     (\<forall>x \<in> set xs. \<forall>a b. snd x \<noteq> Copy a b)"
proof (cases k)
  case True
  then show ?thesis using cleanup_poetry_files_keep[of s] by simp
next
  case False
  have "\<exists>xs. ops (remove_loop files_to_remove (say CleaningUp s)) = ops (say CleaningUp s) @ xs \<and>
     (\<forall>x \<in> set xs. \<forall>a b. snd x \<noteq> Copy a b)"
    by (rule remove_loop_ops) simp
  with False show ?thesis by (simp add: cleanup_poetry_files_def say_def)
qed

lemma verify_installation_False:
  "(fst (verify_installation w s) = Inr False) =
   (cmd_fails w ''uv run python --version'' \<or>
    w ''uv run python --version'' = Returns 0 \<and> cmd_fails w import_cmd)"
  by (auto simp: verify_installation_def run_command_def say_def cmd_fails_def failed_def
      split: proc.splits if_splits)

lemma verify_installation_True:
  "(fst (verify_installation w s) = Inr True) =
   (w ''uv run python --version'' = Returns 0 \<and> w import_cmd = Returns 0 \<and>
    (cmd_fails w ''uv run pytest --version'' \<or> w ''uv run pytest --version'' = Returns 0))"
  by (auto simp: verify_installation_def run_command_def say_def cmd_fails_def failed_def
      split: proc.splits if_splits)

subsection \<open>Causes of the early exits\<close>

lemma check_prerequisites_raised:
  "check_prerequisites w s = (Inl e, s') \<Longrightarrow>
   w ''uv --version'' = Raises e \<or> w ''poetry --version'' = Raises e"
  by (auto simp: check_prerequisites_def run_command_def say_def Let_def split: proc.splits if_splits)



lemma try_body_absent:
  assumes "\<not> path_exists (files s) ''pyproject.uv.toml''" "try_body w a s = (r, s')"
  shows "files s' ''pyproject.toml'' = files s ''pyproject.toml'' \<and>
         (r = Inl (SysExit 1) \<or> (\<exists>e. r = Inl (Raise e)))"
proof -
  have absent: "\<not> path_exists (files s1) ''pyproject.uv.toml''" 
    if "backup_existing_files s = (r1, s1)" for r1 s1
    using backup_existing_files_keeps[OF that, of "''pyproject.uv.toml''"] assms(1)
    by (simp add: path_exists_def)
  have keep: "files s1 ''pyproject.toml'' = files s ''pyproject.toml''"
    if "backup_existing_files s = (r1, s1)" for r1 s1
    using backup_existing_files_keeps[OF that, of "''pyproject.toml''"] by simp
  from assms(2) show ?thesis
  proof (cases rule: try_body_cases)
    case (backup_raised e)
    then show ?thesis using keep by simp
  next
    case (setup_raised s1 e)
    then show ?thesis using setup_uv_configuration_absent[OF absent] by blast
  next
    case (config_absent s1)
    then show ?thesis using setup_uv_configuration_absent[OF absent] keep by metis
  next
    case (install_raised s1 s2 e)
    then show ?thesis using setup_uv_configuration_absent[OF absent] by blast
  next
    case (install_failed s1 s2)
    then show ?thesis using setup_uv_configuration_absent[OF absent] by blast
  next
    case (hooks_raised s1 s2 s3 e)
    then show ?thesis using setup_uv_configuration_absent[OF absent] by blast
  next
    case (verify_raised s1 s2 s3 ok4 s4 e)
    then show ?thesis using setup_uv_configuration_absent[OF absent] by blast
  next
    case (completed s1 s2 s3 ok4 s4 ok5 s5)
    then show ?thesis using setup_uv_configuration_absent[OF absent] by blast
  qed
qed

subsection \<open>Exceptions\<close>










subsection \<open>Completed runs\<close>

lemma main_completed:
  assumes "main w a f = (r, s')" "last (out s') = NextSteps"
  obtains s1 where "check_prerequisites w (say Banner (init f)) = (Inr True, s1)"
    "\<not> (path_exists (files s1) ''uv.lock'' \<and> \<not> force a)"
    "try_body w a s1 = (Inr (), s')" "r = Exit 0"
  using assms(1)
proof (cases rule: main_cases)
  case (probe_raised e)
  from check_prerequisites_last[OF probe_raised(1)] assms(2) show ?thesis by auto
next
  case prereq_failed
  from check_prerequisites_last[OF prereq_failed(1)] assms(2) show ?thesis by auto
next
  case (already_migrated s1)
  with assms(2) show ?thesis by (simp add: say_def)
next
  case (finished s1)
  with that show ?thesis by blast
next
  case (exited s1 n)
  from try_body_last[OF exited(3)] assms(2) show ?thesis by auto
next
  case (cancelled s1 s2)
  with assms(2) show ?thesis by (simp add: say_def)
next
  case (failed s1 s2 e)
  with assms(2) show ?thesis by (simp add: say_def)
qed

lemma try_body_completed:
  assumes "try_body w a s = (Inr u, s')"
  obtains s1 s2 s5 ok5 where "backup_existing_files s = (Inr (), s1)"
    "setup_uv_configuration s1 = (Inr True, s2)"
    "files s5 = files s2" "ops s5 = ops s2"
    "s' = show_next_steps (cleanup_poetry_files (\<not> cleanup a)
              (if \<not> ok5 then say MayHaveIssues s5 else s5))"
  using assms
proof (cases rule: try_body_cases)
  case (completed s1 s2 s3 ok4 s4 ok5 s5)
  have "files s5 = files s2 \<and> ops s5 = ops s2"
    using install_dependencies_frame[OF completed(3)] setup_pre_commit_frame[OF completed(4)]
      verify_installation_frame[OF completed(5)] by simp
  with completed that show ?thesis by blast
qed simp_all

subsection \<open>How far a run gets\<close>

lemma protected_entry_Some:
  assumes "protected_entry w a f = Some s1"
  shows "check_prerequisites w (say Banner (init f)) = (Inr True, s1) \<and>
         \<not> (path_exists (files s1) ''uv.lock'' \<and> \<not> force a) \<and>
         main w a f =
           (case try_body w a s1 of
              (Inr u, s2) \<Rightarrow> (Exit 0, s2)
            | (Inl (SysExit n), s2) \<Rightarrow> (Exit n, s2)
            | (Inl (Raise KeyboardInterrupt), s2) \<Rightarrow> (Exit 1, say MigrationCancelled s2)
            | (Inl (Raise e), s2) \<Rightarrow> (Exit 1, say MigrationFailed s2))"
  using assms unfolding protected_entry_def main_def
  by (auto split: prod.splits sum.splits bool.splits if_splits)

lemma before_install_Some:
  assumes "before_install w a f = Some s3"
  obtains s1 s2 where "protected_entry w a f = Some s1"
    "backup_existing_files s1 = (Inr (), s2)" "setup_uv_configuration s2 = (Inr True, s3)"
  using assms unfolding before_install_def
  by (auto split: option.splits prod.splits sum.splits bool.splits)

lemma before_verification_Some:
  assumes "before_verification w a f = Some s5"
  obtains s3 s4 ok where "before_install w a f = Some s3"
    "install_dependencies w s3 = (Inr True, s4)" "setup_pre_commit w s4 = (Inr ok, s5)"
  using assms unfolding before_verification_def
  by (auto split: option.splits prod.splits sum.splits bool.splits)

lemma try_body_install_failed:
  assumes "backup_existing_files s1 = (Inr (), s2)" "setup_uv_configuration s2 = (Inr True, s3)"
    "install_dependencies w s3 = (Inr False, s4)"
  shows "try_body w a s1 = (Inl (SysExit 1), s4)"
  using assms by (simp add: try_body_def lift_exc_def)

lemma try_body_verified:
  assumes "backup_existing_files s1 = (Inr (), s2)" "setup_uv_configuration s2 = (Inr True, s3)"
    "install_dependencies w s3 = (Inr True, s4)" "setup_pre_commit w s4 = (Inr ok, s5)"
    "verify_installation w s5 = (Inr ok5, s6)"
  shows "try_body w a s1 = (Inr (), show_next_steps (cleanup_poetry_files (\<not> cleanup a)
              (if \<not> ok5 then say MayHaveIssues s6 else s6)))"
  using assms by (simp add: try_body_def lift_exc_def)

lemma install_dependencies_failing:
  "cmd_fails w ''uv sync --dev'' \<Longrightarrow>
   \<exists>s'. install_dependencies w s = (Inr False, s') \<and> files s' = files s \<and> ops s' = ops s"
  by (auto simp: install_dependencies_def run_command_def say_def cmd_fails_def failed_def
      split: proc.splits)

lemma remove_loop_out:
  "\<exists>ys. out (remove_loop ps s) = out s @ ys"
proof (induction ps s rule: remove_loop.induct)
  case (1 s)
  then show ?case by simp
next
  case (2 file_path rest s)
  show ?case
  proof (cases "path_exists (files s) file_path")
    case False
    with 2(3) show ?thesis by simp
  next
    case True
    show ?thesis
    proof (cases "is_dir (files s) file_path")
      case d: True
      from 2(1)[OF True d] True d show ?thesis by (auto simp: say_def rmtree_def)
    next
      case d: False
      from 2(2)[OF True d] True d show ?thesis by (auto simp: say_def unlink_def)
    qed
  qed
qed

lemma cleanup_poetry_files_out:
  "m \<in> set (out s) \<Longrightarrow> m \<in> set (out (cleanup_poetry_files k s))"
proof (cases k)
  case True
  assume "m \<in> set (out s)"
  with True show ?thesis by (simp add: cleanup_poetry_files_def say_def)
next
  case False
  assume m: "m \<in> set (out s)"
  obtain ys where "out (remove_loop files_to_remove (say CleaningUp s)) = out (say CleaningUp s) @ ys"
    using remove_loop_out by blast
  with False m show ?thesis by (simp add: cleanup_poetry_files_def say_def)
qed

subsection \<open>The trace of file operations\<close>

lemma main_quiet:
  assumes "main w a f = (r, s')" "MayHaveIssues \<in> set (out s')"
  shows "r = Exit 0 \<and> last (out s') = NextSteps"
proof -
  have n: "MayHaveIssues \<notin> set (out s1)"
    if "check_prerequisites w (say Banner (init f)) = (r1, s1)" for r1 s1
    using check_prerequisites_quiet[OF that] by (auto simp: say_def init_def)
  from assms(1) show ?thesis
  proof (cases rule: main_cases)
    case (probe_raised e)
    with n assms(2) show ?thesis by blast
  next
    case prereq_failed
    with n assms(2) show ?thesis by blast
  next
    case (already_migrated s1)
    with n[OF already_migrated(1)] assms(2) show ?thesis by (simp add: say_def)
  next
    case (finished s1)
    from try_body_last[OF finished(3)] finished(4) show ?thesis by simp
  next
    case (exited s1 n')
    from try_body_quiet[OF exited(3) assms(2)] n[OF exited(1)] show ?thesis by simp
  next
    case (cancelled s1 s2)
    with assms(2) have "MayHaveIssues \<in> set (out s2)" by (simp add: say_def)
    from try_body_quiet[OF cancelled(3) this] n[OF cancelled(1)] show ?thesis by simp
  next
    case (failed s1 s2 e)
    with assms(2) have "MayHaveIssues \<in> set (out s2)" by (simp add: say_def)
    from try_body_quiet[OF failed(3) this] n[OF failed(1)] show ?thesis by simp
  qed
qed

lemma backup_trace:
  assumes "backup_existing_files s = (r, s1)" "ops s = []"
  shows "\<forall>x \<in> set (ops s1). \<not> overwrites (snd x)"
proof -
  have "\<forall>(a, b) \<in> set files_to_backup.
          \<not> overwrites (Copy a b) \<and> \<not> overwrites (Copy a (b @ ''/'' @ a))"
    by (simp add: files_to_backup_def overwrites_def)
  from backup_existing_files_ops[OF assms(1), of "\<lambda>op. \<not> overwrites op", OF this] assms(2)
  show ?thesis by auto
qed

lemma swap_trace:
  assumes "backup_existing_files s = (Inr (), s1)" "setup_uv_configuration s1 = (Inr True, s2)"
    "ops s = []" "path_exists (files s) ''pyproject.toml''"
  shows "backup_precedes_overwrite (files s) (ops s2) \<and> ops s2 \<noteq> []"
proof -
  let ?t = "copy_target (files s) ''pyproject.toml'' ''pyproject.poetry.toml''"
  from backup_existing_files_config_target[OF assms(1,4)] assms(3)
  obtain c xs where c: "files s ''pyproject.toml'' = Some (File c)"
    "files s1 ?t = files s ''pyproject.toml''"
    "path_exists (files s1) ''pyproject.poetry.toml''"
    "ops s1 = (files s, Copy ''pyproject.toml'' ?t) # xs" by auto
  have k: "files s1 ''pyproject.toml'' = files s ''pyproject.toml''"
    using backup_existing_files_keeps[OF assms(1), of "''pyproject.toml''"] by simp
  then have "\<not> is_dir (files s1) ''pyproject.toml''" using c(1) by (simp add: is_dir_def)
  from setup_uv_configuration_True[OF assms(2) this]
  have o: "ops s2 = ops s1 @ [(files s1, Copy ''pyproject.uv.toml'' ''pyproject.toml'')]" by blast
  have h: "hd (ops s2) = (files s, Copy ''pyproject.toml'' ?t)"
    "ops s2 \<noteq> []" using o c(4) by simp_all
  have "\<forall>x \<in> set (ops s1). \<not> overwrites (snd x)" using backup_trace[OF assms(1,3)] .
  then have "backup_precedes_overwrite (files s) (ops s2)"
    unfolding backup_precedes_overwrite_def using o h(1) c(2,3) k assms(4) by auto
  with h show ?thesis by simp
qed

lemma backup_precedes_overwrite_append:
  assumes "backup_precedes_overwrite f xs" "xs \<noteq> []" "\<forall>x \<in> set ys. \<not> overwrites (snd x)"
  shows "backup_precedes_overwrite f (xs @ ys)"
  using assms unfolding backup_precedes_overwrite_def by auto

lemma backup_precedes_overwrite_none:
  "\<forall>x \<in> set xs. \<not> overwrites (snd x) \<Longrightarrow> backup_precedes_overwrite f xs"
  unfolding backup_precedes_overwrite_def by auto

lemma cleanup_trace:
  "\<exists>ys. ops (cleanup_poetry_files k s) = ops s @ ys \<and> (\<forall>x \<in> set ys. \<not> overwrites (snd x))"
  using cleanup_poetry_files_ops[of k s] by (auto simp: overwrites_def split: fileop.splits)

lemma try_body_trace:
  assumes "try_body w a s = (r, s')" "ops s = []" "path_exists (files s) ''pyproject.toml''"
  shows "backup_precedes_overwrite (files s) (ops s')"
  using assms(1)
proof (cases rule: try_body_cases)
  case (backup_raised e)
  from backup_trace[OF backup_raised(1) assms(2)] show ?thesis
    by (rule backup_precedes_overwrite_none)
next
  case (setup_raised s1 e)
  from backup_trace[OF setup_raised(1) assms(2)] setup_uv_configuration_raised[OF setup_raised(2)]
  show ?thesis by (simp add: backup_precedes_overwrite_none)
next
  case (config_absent s1)
  from backup_trace[OF config_absent(1) assms(2)] setup_uv_configuration_False[OF config_absent(2)]
  show ?thesis by (simp add: backup_precedes_overwrite_none)
next
  case (install_raised s1 s2 e)
  from swap_trace[OF install_raised(1,2) assms(2,3)] install_dependencies_frame[OF install_raised(3)]
  show ?thesis by simp
next
  case (install_failed s1 s2)
  from swap_trace[OF install_failed(1,2) assms(2,3)] install_dependencies_frame[OF install_failed(3)]
  show ?thesis by simp
next
  case (hooks_raised s1 s2 s3 e)
  from swap_trace[OF hooks_raised(1,2) assms(2,3)] install_dependencies_frame[OF hooks_raised(3)]
    setup_pre_commit_frame[OF hooks_raised(4)]
  show ?thesis by simp
next
  case (verify_raised s1 s2 s3 ok4 s4 e)
  from swap_trace[OF verify_raised(1,2) assms(2,3)] install_dependencies_frame[OF verify_raised(3)]
    setup_pre_commit_frame[OF verify_raised(4)] verify_installation_frame[OF verify_raised(5)]
  show ?thesis by simp
next
  case (completed s1 s2 s3 ok4 s4 ok5 s5)
  let ?s = "if \<not> ok5 then say MayHaveIssues s5 else s5"
  have o5: "ops ?s = ops s2"
    using install_dependencies_frame[OF completed(3)] setup_pre_commit_frame[OF completed(4)]
      verify_installation_frame[OF completed(5)] by (simp add: say_def)
  obtain ys where ys: "ops (cleanup_poetry_files (\<not> cleanup a) ?s) = ops ?s @ ys"
    "\<forall>x \<in> set ys. \<not> overwrites (snd x)" using cleanup_trace by blast
  have "ops s' = ops s2 @ ys" using completed(7) ys(1) o5 by (simp add: show_next_steps_def say_def)
  with swap_trace[OF completed(1,2) assms(2,3)] ys(2) show ?thesis
    by (simp add: backup_precedes_overwrite_append)
qed

section \<open>Properties of a run\<close>






text \<open>
  C3, as stated, fails: when the environment version check succeeds and the import
  smoke test ends with a non-zero status, verification reports failure too.
\<close>

theorem verification_counterexample:
  "import_fails ''uv run python --version'' = Returns 0 \<and>
   fst (verify_installation import_fails (init poetry_project)) = Inr False"
  by (simp add: model_defs import_fails_def poetry_project_def)

text \<open>
  C3, amended. Verification runs up to three checks in order. It reports failure exactly
  when the environment version check fails, or that check succeeds and the import smoke
  test fails (the later checks are then not run); a failing test-runner check is only a
  warning. When verification is reached and reports failure, the run still goes through
  cleanup to the final report and exits with status 0, having printed the advisory
  warning; and that warning is printed in no other kind of run.
\<close>

theorem verification_is_advisory:
  "(fst (verify_installation w s) = Inr False) =
     (cmd_fails w ''uv run python --version'' \<or>
      w ''uv run python --version'' = Returns 0 \<and> cmd_fails w import_cmd) \<and>
   (fst (verify_installation w s) = Inr True) =
     (w ''uv run python --version'' = Returns 0 \<and> w import_cmd = Returns 0 \<and>
      (cmd_fails w ''uv run pytest --version'' \<or> w ''uv run pytest --version'' = Returns 0)) \<and>
   (before_verification w a f = Some s \<and> fst (verify_installation w s) = Inr False \<longrightarrow>
      fst (main w a f) = Exit 0 \<and> last (out (snd (main w a f))) = NextSteps \<and>
      MayHaveIssues \<in> set (out (snd (main w a f)))) \<and>
   (MayHaveIssues \<in> set (out (snd (main w a f))) \<longrightarrow>
      fst (main w a f) = Exit 0 \<and> last (out (snd (main w a f))) = NextSteps)"
proof (intro conjI impI)
  show "(fst (verify_installation w s) = Inr False) =
     (cmd_fails w ''uv run python --version'' \<or>
      w ''uv run python --version'' = Returns 0 \<and> cmd_fails w import_cmd)"
    by (rule verify_installation_False)
  show "(fst (verify_installation w s) = Inr True) =
     (w ''uv run python --version'' = Returns 0 \<and> w import_cmd = Returns 0 \<and>
      (cmd_fails w ''uv run pytest --version'' \<or> w ''uv run pytest --version'' = Returns 0))"
    by (rule verify_installation_True)
next
  assume h: "before_verification w a f = Some s \<and> fst (verify_installation w s) = Inr False"
  then obtain s6 where v: "verify_installation w s = (Inr False, s6)"
    by (cases "verify_installation w s") simp
  from h obtain s3 s4 ok where i: "before_install w a f = Some s3"
    "install_dependencies w s3 = (Inr True, s4)" "setup_pre_commit w s4 = (Inr ok, s)"
    by (auto elim: before_verification_Some)
  from i(1) obtain s1 s2 where p: "protected_entry w a f = Some s1"
    "backup_existing_files s1 = (Inr (), s2)" "setup_uv_configuration s2 = (Inr True, s3)"
    by (rule before_install_Some)
  let ?s' = "show_next_steps (cleanup_poetry_files (\<not> cleanup a) (say MayHaveIssues s6))"
  have "try_body w a s1 = (Inr (), ?s')"
    using try_body_verified[OF p(2,3) i(2,3) v, of a] by simp
  with protected_entry_Some[OF p(1)] have m: "main w a f = (Exit 0, ?s')" by simp
  have "MayHaveIssues \<in> set (out (say MayHaveIssues s6))" by (simp add: say_def)
  then have "MayHaveIssues \<in> set (out ?s')"
    using cleanup_poetry_files_out by (simp add: show_next_steps_def say_def)
  with m show "fst (main w a f) = Exit 0" "last (out (snd (main w a f))) = NextSteps"
    "MayHaveIssues \<in> set (out (snd (main w a f)))"
    by (simp_all add: show_next_steps_def say_def)
next
  assume h: "MayHaveIssues \<in> set (out (snd (main w a f)))"
  obtain r s' where m: "main w a f = (r, s')" by (cases "main w a f")
  with h main_quiet[OF m] show "fst (main w a f) = Exit 0"
    "last (out (snd (main w a f))) = NextSteps" by simp_all
qed

theorem verification_is_advisory_witness:
  "before_verification import_fails no_flags poetry_project \<noteq> None \<and>
   fst (verify_installation import_fails
          (the (before_verification import_fails no_flags poetry_project))) = Inr False \<and>
   fst (main import_fails no_flags poetry_project) = Exit 0 \<and>
   last (out (snd (main import_fails no_flags poetry_project))) = NextSteps \<and>
   MayHaveIssues \<in> set (out (snd (main import_fails no_flags poetry_project)))"
proof -
  have n: "before_verification import_fails no_flags poetry_project \<noteq> None"
    by (simp add: before_verification_def before_install_def protected_entry_def
        model_defs import_fails_def no_flags_def poetry_project_def)
  then have e: "before_verification import_fails no_flags poetry_project =
      Some (the (before_verification import_fails no_flags poetry_project))" by simp
  have v: "fst (verify_installation import_fails
          (the (before_verification import_fails no_flags poetry_project))) = Inr False"
    by (simp add: verify_installation_False cmd_fails_def import_fails_def import_cmd_def)
  from verification_is_advisory [of import_fails
      "the (before_verification import_fails no_flags poetry_project)" no_flags poetry_project]
    n e v show ?thesis by blast
qed

text \<open>
  C4. In every run, every file operation of the script that overwrites \<open>pyproject.toml\<close>
  is applied to a filesystem in which \<open>pyproject.toml\<close> (which existed at the start)
  still has its original content, \<open>pyproject.poetry.toml\<close> exists and the backup copy
  holds the original content, and the first file operation of the run was that backup
  copy: the backup step comes before the configuration swap. (The backup copy is at
  \<open>pyproject.poetry.toml\<close>, or inside it when that path was a directory.)
\<close>

theorem backup_before_overwrite:
  "backup_precedes_overwrite f (ops (snd (main w a f)))"
proof -
  obtain r s' where m: "main w a f = (r, s')" by (cases "main w a f")
  have fr: "files s1 = f \<and> ops s1 = []"
    if "check_prerequisites w (say Banner (init f)) = (r1, s1)" for r1 s1
    using check_prerequisites_frame[OF that] by (simp add: say_def init_def)
  have ex: "path_exists f ''pyproject.toml''"
    if "check_prerequisites w (say Banner (init f)) = (Inr True, s1)" for s1
    using check_prerequisites_True[OF that] by (simp add: say_def init_def prerequisites_pass_def)
  have tb: "backup_precedes_overwrite f (ops s2)"
    if "check_prerequisites w (say Banner (init f)) = (Inr True, s1)"
      "try_body w a s1 = (r2, s2)" for s1 r2 s2
    using try_body_trace[OF that(2)] fr[OF that(1)] ex[OF that(1)] by simp
  from m have "backup_precedes_overwrite f (ops s')"
  proof (cases rule: main_cases)
    case (probe_raised e)
    with fr show ?thesis by (simp add: backup_precedes_overwrite_def)
  next
    case prereq_failed
    with fr show ?thesis by (simp add: backup_precedes_overwrite_def)
  next
    case (already_migrated s1)
    with fr[OF already_migrated(1)] show ?thesis
      by (simp add: backup_precedes_overwrite_def say_def)
  next
    case (finished s1)
    from tb[OF finished(1,3)] show ?thesis .
  next
    case (exited s1 n)
    from tb[OF exited(1,3)] show ?thesis .
  next
    case (cancelled s1 s2)
    from tb[OF cancelled(1,3)] cancelled(5) show ?thesis by (simp add: say_def)
  next
    case (failed s1 s2 e)
    from tb[OF failed(1,3)] failed(6) show ?thesis by (simp add: say_def)
  qed
  with m show ?thesis by simp
qed

theorem backup_before_overwrite_witness:
  "backup_precedes_overwrite poetry_project (ops (snd (main sync_fails no_flags poetry_project))) \<and>
   map snd (ops (snd (main sync_fails no_flags poetry_project))) =
     [Copy ''pyproject.toml'' ''pyproject.poetry.toml'', Copy ''poetry.lock'' ''poetry.lock.bak'',
      Copy ''pyproject.uv.toml'' ''pyproject.toml''] \<and>
   overwrites (Copy ''pyproject.uv.toml'' ''pyproject.toml'') \<and>
   copy_target poetry_project ''pyproject.toml'' ''pyproject.poetry.toml'' = ''pyproject.poetry.toml''"
  using backup_before_overwrite [of poetry_project sync_fails no_flags]
  by (simp add: model_defs sync_fails_def no_flags_def poetry_project_def overwrites_def)

text \<open>
  C5, as stated, fails: in an already migrated project from which \<open>pyproject.uv.toml\<close> has
  been removed, the run is the already-migrated no-op and exits with status 0.
\<close>

theorem target_config_absent_counterexample:
  "migrated_project ''pyproject.uv.toml'' = None \<and>
   fst (main all_succeed no_flags migrated_project) = Exit 0"
  by (simp add: model_defs all_succeed_def no_flags_def migrated_project_def)

text \<open>
  C5, amended. In every run in which \<open>pyproject.uv.toml\<close> is absent, \<open>pyproject.toml\<close>
  has its original content when the process ends; and unless the run is the
  already-migrated no-op (prerequisites pass, \<open>uv.lock\<close> present, no \<open>--force\<close>), the
  process exits with status 1, or ends with the exception that a version probe of the
  prerequisite check raised.
\<close>

theorem target_config_absent:
  assumes "f ''pyproject.uv.toml'' = None"
  shows "files (snd (main w a f)) ''pyproject.toml'' = f ''pyproject.toml'' \<and>
         (\<not> (prerequisites_pass w f \<and> path_exists f ''uv.lock'' \<and> \<not> force a) \<longrightarrow>
            fst (main w a f) = Exit 1 \<or>
            (\<exists>e. fst (main w a f) = Uncaught e \<and>
                 (w ''uv --version'' = Raises e \<or> w ''poetry --version'' = Raises e)))"
proof -
  obtain r s' where m: "main w a f = (r, s')" by (cases "main w a f")
  have init: "files (say Banner (init f)) = f" by (simp add: say_def init_def)
  have fr: "files s1 = f" and tr: "(r1 = Inr True) = prerequisites_pass w f"
    if "check_prerequisites w (say Banner (init f)) = (r1, s1)" for r1 s1
    using check_prerequisites_frame[OF that] check_prerequisites_True[OF that] init by simp_all
  have ab: "\<not> path_exists (files s1) ''pyproject.uv.toml''"
    if "check_prerequisites w (say Banner (init f)) = (r1, s1)" for r1 s1
    using fr[OF that] assms by (simp add: path_exists_def)
  from m have "files s' ''pyproject.toml'' = f ''pyproject.toml'' \<and>
         (\<not> (prerequisites_pass w f \<and> path_exists f ''uv.lock'' \<and> \<not> force a) \<longrightarrow>
            r = Exit 1 \<or>
            (\<exists>e. r = Uncaught e \<and>
                 (w ''uv --version'' = Raises e \<or> w ''poetry --version'' = Raises e)))"
  proof (cases rule: main_cases)
    case (probe_raised e)
    then show ?thesis using fr check_prerequisites_raised by blast
  next
    case prereq_failed
    then show ?thesis using fr by blast
  next
    case (already_migrated s1)
    then show ?thesis using fr[OF already_migrated(1)] tr[OF already_migrated(1)]
      by (simp add: say_def)
  next
    case (finished s1)
    then show ?thesis using try_body_absent[OF ab[OF finished(1)] finished(3)] by simp
  next
    case (exited s1 n)
    then show ?thesis using try_body_absent[OF ab[OF exited(1)] exited(3)] fr[OF exited(1)]
      by simp
  next
    case (cancelled s1 s2)
    then show ?thesis using try_body_absent[OF ab[OF cancelled(1)] cancelled(3)] fr[OF cancelled(1)]
      by (simp add: say_def)
  next
    case (failed s1 s2 e)
    then show ?thesis using try_body_absent[OF ab[OF failed(1)] failed(3)] fr[OF failed(1)]
      by (simp add: say_def)
  qed
  with m show ?thesis by simp
qed

theorem target_config_absent_witness:
  "[''pyproject.toml'' \<mapsto> File ''[tool.poetry]''] ''pyproject.uv.toml'' = None \<and>
   files (snd (main all_succeed no_flags [''pyproject.toml'' \<mapsto> File ''[tool.poetry]'']))
     ''pyproject.toml'' = Some (File ''[tool.poetry]'') \<and>
   \<not> path_exists [''pyproject.toml'' \<mapsto> File ''[tool.poetry]''] ''uv.lock'' \<and>
   fst (main all_succeed no_flags [''pyproject.toml'' \<mapsto> File ''[tool.poetry]'']) = Exit 1"
  using target_config_absent [of "[''pyproject.toml'' \<mapsto> File ''[tool.poetry]'']" all_succeed no_flags]
  by (simp add: all_succeed_def no_flags_def path_exists_def)

text \<open>
  C6, as stated, fails: in an already migrated project on a machine where the new tool is
  not on the path, \<open>uv.lock\<close> is present and \<open>--force\<close> is not given, and the run exits
  with status 1.
\<close>

theorem already_migrated_counterexample:
  "path_exists migrated_project ''uv.lock'' \<and> \<not> force no_flags \<and>
   fst (main uv_missing no_flags migrated_project) = Exit 1"
  by (simp add: model_defs uv_missing_def no_flags_def migrated_project_def)

text \<open>
  C6, amended. In every run with \<open>uv.lock\<close> present and \<open>--force\<close> not given the script
  performs no file operation and leaves the working directory as it was; the exit status
  is 0 exactly when the prerequisites pass.
\<close>

theorem already_migrated_no_mutation:
  assumes "path_exists f ''uv.lock''" "\<not> force a"
  shows "ops (snd (main w a f)) = [] \<and> files (snd (main w a f)) = f \<and>
         (fst (main w a f) = Exit 0) = prerequisites_pass w f"
proof -
  obtain r s1 where c: "check_prerequisites w (say Banner (init f)) = (r, s1)"
    by (cases "check_prerequisites w (say Banner (init f))")
  have fr: "files s1 = f" "ops s1 = []"
    using check_prerequisites_frame[OF c] by (simp_all add: say_def init_def)
  have t: "(r = Inr True) = prerequisites_pass w f"
    using check_prerequisites_True[OF c] by (simp add: say_def init_def)
  show ?thesis
  proof (cases r)
    case (Inl e)
    with c fr t show ?thesis by (simp add: main_def)
  next
    case (Inr ok)
    with c fr t assms show ?thesis by (cases ok) (simp_all add: main_def say_def)
  qed
qed

theorem already_migrated_no_mutation_witness:
  "path_exists migrated_project ''uv.lock'' \<and> \<not> force no_flags \<and>
   ops (snd (main all_succeed no_flags migrated_project)) = [] \<and>
   fst (main all_succeed no_flags migrated_project) = Exit 0 \<and>
   prerequisites_pass all_succeed migrated_project"
  using already_migrated_no_mutation [of migrated_project no_flags all_succeed]
  by (simp add: all_succeed_def no_flags_def migrated_project_def path_exists_def prerequisites_pass_def)

text \<open>
  C7. When the marker file \<open>pyproject.toml\<close> is absent, or the probe of the new tool
  ends with a non-zero status, the run exits with status 1, the script has performed no
  file operation, and the working directory is as it was.
\<close>

theorem prerequisite_failure_exits_without_mutation:
  assumes "f ''pyproject.toml'' = None \<or> uv_not_invocable w"
  shows "fst (main w a f) = Exit 1 \<and> ops (snd (main w a f)) = [] \<and> files (snd (main w a f)) = f"
proof -
  obtain r s1 where c: "check_prerequisites w (say Banner (init f)) = (r, s1)"
    by (cases "check_prerequisites w (say Banner (init f))")
  have fr: "files s1 = f" "ops s1 = []"
    using check_prerequisites_frame[OF c] by (simp_all add: say_def init_def)
  have "r = Inr False"
    using check_prerequisites_fail[of "say Banner (init f)" w] assms c
    by (simp add: say_def init_def path_exists_def)
  then show ?thesis using c fr by (simp add: main_def)
qed

theorem prerequisite_failure_exits_without_mutation_witness:
  "(empty_directory ''pyproject.toml'' = None \<or> uv_not_invocable all_succeed) \<and>
   fst (main all_succeed no_flags empty_directory) = Exit 1 \<and>
   ops (snd (main all_succeed no_flags empty_directory)) = [] \<and>
   (poetry_project ''pyproject.toml'' = None \<or> uv_not_invocable uv_missing) \<and>
   fst (main uv_missing no_flags poetry_project) = Exit 1 \<and>
   ops (snd (main uv_missing no_flags poetry_project)) = []"
  using prerequisite_failure_exits_without_mutation [of empty_directory all_succeed no_flags]
    prerequisite_failure_exits_without_mutation [of poetry_project uv_missing no_flags]
  by (simp add: all_succeed_def uv_missing_def no_flags_def poetry_project_def empty_directory_def uv_not_invocable_def cmd_fails_def)

text \<open>
  C8. When the run gets as far as the dependency installation (prerequisites, backup and
  configuration swap succeeded) and \<open>uv sync --dev\<close> ends with a non-zero status, the
  run exits with status 1 after the install diagnostic, and the partial migration stays
  on disk: the backup of \<open>pyproject.toml\<close> holds its original content, so does the
  backup of \<open>poetry.lock\<close> if there was one, and \<open>pyproject.toml\<close> holds the content
  of \<open>pyproject.uv.toml\<close>. (A backup is at its backup path, \<open>pyproject.poetry.toml\<close>
  or \<open>poetry.lock.bak\<close>, or inside it when that path was a directory.)
\<close>

theorem install_failure_after_swap:
  assumes "before_install w a f = Some s3" "cmd_fails w ''uv sync --dev''"
  shows "fst (main w a f) = Exit 1 \<and> last (out (snd (main w a f))) = InstallFailed \<and>
         (\<exists>c u. f ''pyproject.toml'' = Some (File c) \<and> f ''pyproject.uv.toml'' = Some (File u)) \<and>
         path_exists (files (snd (main w a f))) ''pyproject.poetry.toml'' \<and>
         files (snd (main w a f)) (copy_target f ''pyproject.toml'' ''pyproject.poetry.toml'') =
           f ''pyproject.toml'' \<and>
         (path_exists f ''poetry.lock'' \<longrightarrow>
            files (snd (main w a f)) (copy_target f ''poetry.lock'' ''poetry.lock.bak'') =
              f ''poetry.lock'') \<and>
         files (snd (main w a f)) ''pyproject.toml'' = f ''pyproject.uv.toml''"
proof -
  let ?t = "copy_target f ''pyproject.toml'' ''pyproject.poetry.toml''"
  let ?l = "copy_target f ''poetry.lock'' ''poetry.lock.bak''"
  from assms(1) obtain s1 s2 where p: "protected_entry w a f = Some s1"
    and b: "backup_existing_files s1 = (Inr (), s2)"
    and u: "setup_uv_configuration s2 = (Inr True, s3)"
    by (rule before_install_Some)
  from protected_entry_Some[OF p] have c: "check_prerequisites w (say Banner (init f)) = (Inr True, s1)"
    and mm: "main w a f =
           (case try_body w a s1 of
              (Inr u, s2) \<Rightarrow> (Exit 0, s2)
            | (Inl (SysExit n), s2) \<Rightarrow> (Exit n, s2)
            | (Inl (Raise KeyboardInterrupt), s2) \<Rightarrow> (Exit 1, say MigrationCancelled s2)
            | (Inl (Raise e), s2) \<Rightarrow> (Exit 1, say MigrationFailed s2))" by simp_all
  have f1: "files s1 = f" using check_prerequisites_frame[OF c] by (simp add: say_def init_def)
  have ex: "path_exists f ''pyproject.toml''"
    using check_prerequisites_True[OF c] by (simp add: say_def init_def prerequisites_pass_def)
  from install_dependencies_failing[OF assms(2), of s3] obtain s4 where
    i: "install_dependencies w s3 = (Inr False, s4)" and f4: "files s4 = files s3" by blast
  have m: "main w a f = (Exit 1, s4)"
    using mm try_body_install_failed[OF b u i, of a] by simp
  from backup_existing_files_config_target[OF b] ex f1
  obtain c0 where c0: "f ''pyproject.toml'' = Some (File c0)"
    "files s2 ?t = f ''pyproject.toml''" "path_exists (files s2) ''pyproject.poetry.toml''" by auto
  have l0: "files s2 ?l = f ''poetry.lock''" if "path_exists f ''poetry.lock''"
    using backup_existing_files_lock_target[OF b] that f1 by simp
  have k: "files s2 ''pyproject.toml'' = f ''pyproject.toml''"
    "files s2 ''pyproject.uv.toml'' = f ''pyproject.uv.toml''"
    using backup_existing_files_keeps[OF b, of "''pyproject.toml''"]
      backup_existing_files_keeps[OF b, of "''pyproject.uv.toml''"] f1 by simp_all
  have "\<not> is_dir (files s2) ''pyproject.toml''" using k(1) c0(1) by (simp add: is_dir_def)
  from setup_uv_configuration_True[OF u this] obtain u0 where
    u0: "files s2 ''pyproject.uv.toml'' = Some (File u0)"
    "files s3 = (files s2)(''pyproject.toml'' \<mapsto> File u0)" by blast
  have u1: "f ''pyproject.uv.toml'' = Some (File u0)" using u0(1) k(2) by simp
  have la: "last (out s4) = InstallFailed" using install_dependencies_False[OF i] .
  have ne: "?t \<noteq> ''pyproject.toml''" "?l \<noteq> ''pyproject.toml''"
    by (simp_all add: copy_target_def)
  have fin: "files s4 = (files s2)(''pyproject.toml'' \<mapsto> File u0)" using f4 u0(2) by simp
  have "files s4 ?t = f ''pyproject.toml''" using fin ne(1) c0(2) by simp
  moreover have "files s4 ?l = f ''poetry.lock''" if "path_exists f ''poetry.lock''"
    using fin ne(2) l0[OF that] by simp
  moreover have "path_exists (files s4) ''pyproject.poetry.toml''"
    using fin c0(3) by (simp add: path_exists_def)
  moreover have "files s4 ''pyproject.toml'' = f ''pyproject.uv.toml''" using fin u1 by simp
  ultimately show ?thesis using m la c0(1) u1 by simp
qed

theorem install_failure_after_swap_witness:
  "before_install sync_fails no_flags poetry_project \<noteq> None \<and>
   cmd_fails sync_fails ''uv sync --dev'' \<and>
   fst (main sync_fails no_flags poetry_project) = Exit 1 \<and>
   files (snd (main sync_fails no_flags poetry_project)) ''pyproject.poetry.toml'' =
     Some (File ''[tool.poetry]'') \<and>
   files (snd (main sync_fails no_flags poetry_project)) ''poetry.lock.bak'' = Some (File ''# lock'') \<and>
   files (snd (main sync_fails no_flags poetry_project)) ''pyproject.toml'' = Some (File ''[project]'')"
proof -
  have n: "before_install sync_fails no_flags poetry_project \<noteq> None"
    by (simp add: before_install_def protected_entry_def model_defs sync_fails_def no_flags_def poetry_project_def)
  then have e: "before_install sync_fails no_flags poetry_project =
      Some (the (before_install sync_fails no_flags poetry_project))" by simp
  have h: "cmd_fails sync_fails ''uv sync --dev''"
    "copy_target poetry_project ''pyproject.toml'' ''pyproject.poetry.toml'' = ''pyproject.poetry.toml''"
    "copy_target poetry_project ''poetry.lock'' ''poetry.lock.bak'' = ''poetry.lock.bak''"
    "path_exists poetry_project ''poetry.lock''"
    "poetry_project ''pyproject.toml'' = Some (File ''[tool.poetry]'')"
    "poetry_project ''poetry.lock'' = Some (File ''# lock'')"
    "poetry_project ''pyproject.uv.toml'' = Some (File ''[project]'')"
    by (simp_all add: cmd_fails_def sync_fails_def copy_target_def is_dir_def path_exists_def
        poetry_project_def)
  from install_failure_after_swap [OF e h(1)] n h show ?thesis by simp
qed

text \<open>
  C9. In a run with \<open>--cleanup\<close> that completes the workflow (the final report is the
  last thing printed), \<open>poetry.lock.bak\<close>, \<open>pyproject.poetry.toml\<close> and \<open>.venv\<close> do not
  exist when the process ends. Without \<open>--cleanup\<close> the cleanup step, as \<open>main\<close> calls
  it, performs no file operation and leaves the filesystem as it is.
\<close>

theorem cleanup_removes_backups:
  "(cleanup a \<and> last (out (snd (main w a f))) = NextSteps \<longrightarrow>
      fst (main w a f) = Exit 0 \<and>
      files (snd (main w a f)) ''poetry.lock.bak'' = None \<and>
      files (snd (main w a f)) ''pyproject.poetry.toml'' = None \<and>
      files (snd (main w a f)) ''.venv'' = None) \<and>
   (\<not> cleanup a \<longrightarrow>
      files (cleanup_poetry_files (\<not> cleanup a) s) = files s \<and>
      ops (cleanup_poetry_files (\<not> cleanup a) s) = ops s)"
proof (intro conjI impI)
  assume h: "cleanup a \<and> last (out (snd (main w a f))) = NextSteps"
  obtain r s' where m: "main w a f = (r, s')" by (cases "main w a f")
  with h have l: "last (out s') = NextSteps" by simp
  from m l obtain s1 where t: "try_body w a s1 = (Inr (), s')" and r: "r = Exit 0"
    by (rule main_completed)
  from t obtain s5 ok5 where
    "s' = show_next_steps (cleanup_poetry_files (\<not> cleanup a)
            (if \<not> ok5 then say MayHaveIssues s5 else s5))"
    by (rule try_body_completed)
  with h have "files s' p = None" if "p \<in> set files_to_remove" for p
    using cleanup_poetry_files_removed[OF that] by (simp add: show_next_steps_def say_def)
  then have "files s' ''poetry.lock.bak'' = None" "files s' ''pyproject.poetry.toml'' = None"
    "files s' ''.venv'' = None" by (simp_all add: files_to_remove_def)
  with m r show "fst (main w a f) = Exit 0" "files (snd (main w a f)) ''poetry.lock.bak'' = None"
    "files (snd (main w a f)) ''pyproject.poetry.toml'' = None"
    "files (snd (main w a f)) ''.venv'' = None" by simp_all
next
  assume "\<not> cleanup a"
  then show "files (cleanup_poetry_files (\<not> cleanup a) s) = files s"
    "ops (cleanup_poetry_files (\<not> cleanup a) s) = ops s"
    using cleanup_poetry_files_keep[of s] by simp_all
qed

theorem cleanup_removes_backups_witness:
  "cleanup cleanup_flag \<and> last (out (snd (main all_succeed cleanup_flag poetry_project))) = NextSteps \<and>
   poetry_project ''.venv'' = Some Dir \<and>
   files (snd (main all_succeed cleanup_flag poetry_project)) ''poetry.lock.bak'' = None \<and>
   files (snd (main all_succeed cleanup_flag poetry_project)) ''pyproject.poetry.toml'' = None \<and>
   files (snd (main all_succeed cleanup_flag poetry_project)) ''.venv'' = None \<and>
   \<not> cleanup no_flags \<and>
   files (cleanup_poetry_files (\<not> cleanup no_flags) (init poetry_project)) = poetry_project"
  using cleanup_removes_backups [of cleanup_flag all_succeed poetry_project]
    cleanup_removes_backups [of no_flags all_succeed poetry_project "init poetry_project"]
  by (simp add: model_defs all_succeed_def no_flags_def cleanup_flag_def poetry_project_def)

text \<open>
  C10. The prerequisite check comes first: without \<open>pyproject.toml\<close> the run exits
  with status 1 whatever \<open>uv.lock\<close> and \<open>--force\<close> are, and the already-migrated
  message is printed only in runs whose prerequisites pass.
\<close>

theorem prerequisites_before_already_migrated:
  "(f ''pyproject.toml'' = None \<longrightarrow> fst (main w a f) = Exit 1) \<and>
   (UVAlreadyExists \<in> set (out (snd (main w a f))) \<longrightarrow> prerequisites_pass w f)"
proof (intro conjI impI)
  obtain r s1 where c: "check_prerequisites w (say Banner (init f)) = (r, s1)"
    by (cases "check_prerequisites w (say Banner (init f))")
  have t: "(r = Inr True) = prerequisites_pass w f"
    using check_prerequisites_True[OF c] by (simp add: say_def init_def)
  {
    assume "f ''pyproject.toml'' = None"
    then have "r = Inr False"
      using check_prerequisites_fail[of "say Banner (init f)" w] c
      by (simp add: say_def init_def path_exists_def)
    then show "fst (main w a f) = Exit 1" using c by (simp add: main_def)
  }
  {
    assume m: "UVAlreadyExists \<in> set (out (snd (main w a f)))"
    show "prerequisites_pass w f"
    proof (rule ccontr)
      assume "\<not> prerequisites_pass w f"
      with t have n: "r \<noteq> Inr True" by simp
      have "out (snd (main w a f)) = out s1"
        using c n by (cases r) (auto simp: main_def)
      moreover have "UVAlreadyExists \<notin> set (out s1)"
        using c by (auto simp: check_prerequisites_def run_command_def say_def init_def Let_def
            split: proc.splits if_splits)
      ultimately show False using m by simp
    qed
  }
qed

theorem prerequisites_before_already_migrated_witness:
  "lock_only ''pyproject.toml'' = None \<and>
   fst (main all_succeed no_flags lock_only) = Exit 1 \<and>
   UVAlreadyExists \<in> set (out (snd (main all_succeed no_flags migrated_project))) \<and>
   prerequisites_pass all_succeed migrated_project"
  using prerequisites_before_already_migrated [of lock_only all_succeed no_flags]
    prerequisites_before_already_migrated [of migrated_project all_succeed no_flags]
  by (simp add: model_defs all_succeed_def no_flags_def migrated_project_def lock_only_def)

end
